theory Spec2Isabelle
  imports Complex_Main
begin

section \<open>The clinic sign-up form: shift store, availability projection, submission\<close>

text \<open>
  A shallow embedding of \<^verbatim>\<open>src/app/clinicsignup.tsx\<close>: the component's state is a
  record, each handler is a function from state to state, \<^verbatim>\<open>localStorage\<close>, the console
  and the network are fields of that record, and every exception the handlers can meet
  is a branch of the model.
\<close>

subsection \<open>JavaScript dates\<close>

text \<open>
  A JavaScript \<^verbatim>\<open>Date\<close> holds a time value: a whole number of milliseconds since the
  epoch, at most \<open>maxTime\<close> away from it, or NaN (an "Invalid Date", what
  \<^verbatim>\<open>new Date(undefined)\<close> builds). The constructor \<open>Time\<close> carries any integer; where
  the range matters, the property says so.
\<close>

datatype Date = Time int | Invalid_Date

text \<open>\<^verbatim>\<open>d.getTime()\<close>: the time value; \<open>None\<close> stands for NaN.\<close>

fun getTime :: "Date \<Rightarrow> int option" where
  "getTime (Time t) = Some t"
| "getTime Invalid_Date = None"

text \<open>\<^verbatim>\<open>a === b\<close> on numbers: NaN is equal to nothing, itself included.\<close>

definition strict_equal :: "int option \<Rightarrow> int option \<Rightarrow> bool" where
  "strict_equal a b = (case (a, b) of (Some x, Some y) \<Rightarrow> x = y | _ \<Rightarrow> False)"

text \<open>The calendar of ECMAScript (ECMA-262, "Time Values and Time Range" onwards).\<close>

definition msPerDay :: int where
  "msPerDay = 86400000"

definition maxTime :: int where
  "maxTime = 8640000000000000"

definition Day :: "int \<Rightarrow> int" where
  "Day t = t div msPerDay"

definition TimeWithinDay :: "int \<Rightarrow> int" where
  "TimeWithinDay t = t mod msPerDay"

definition DaysInYear :: "int \<Rightarrow> int" where
  "DaysInYear y =
     (if y mod 4 \<noteq> 0 then 365
      else if y mod 100 \<noteq> 0 then 366
      else if y mod 400 \<noteq> 0 then 365 else 366)"

definition DayFromYear :: "int \<Rightarrow> int" where
  "DayFromYear y =
     365 * (y - 1970) + (y - 1969) div 4 - (y - 1901) div 100 + (y - 1601) div 400"

text \<open>
  The year of a day number: ECMAScript's "largest \<open>y\<close> with \<open>DayFromYear y \<le> d\<close>",
  computed from the estimate \<open>d / 365.2425\<close>, which is off by one year at most.
\<close>

definition YearFromDay :: "int \<Rightarrow> int" where
  "YearFromDay d =
     (let y0 = 1970 + (d * 400) div 146097
      in if DayFromYear (y0 + 1) \<le> d then y0 + 1
         else if DayFromYear y0 \<le> d then y0
         else y0 - 1)"

definition InLeapYear :: "int \<Rightarrow> int" where
  "InLeapYear y = DaysInYear y - 365"

text \<open>The day within the year at which month \<open>m\<close> (0 to 11) starts; \<open>l\<close> is 1 in a leap year.\<close>

definition MonthStart :: "int \<Rightarrow> int \<Rightarrow> int" where
  "MonthStart l m =
     (if m = 0 then 0 else if m = 1 then 31 else if m = 2 then 59 + l
      else if m = 3 then 90 + l else if m = 4 then 120 + l else if m = 5 then 151 + l
      else if m = 6 then 181 + l else if m = 7 then 212 + l else if m = 8 then 243 + l
      else if m = 9 then 273 + l else if m = 10 then 304 + l else 334 + l)"

text \<open>\<^verbatim>\<open>MonthFromTime\<close>, from the day within the year.\<close>

definition MonthFromDay :: "int \<Rightarrow> int \<Rightarrow> int" where
  "MonthFromDay l dwy =
     (if dwy < 31 then 0 else if dwy < 59 + l then 1 else if dwy < 90 + l then 2
      else if dwy < 120 + l then 3 else if dwy < 151 + l then 4 else if dwy < 181 + l then 5
      else if dwy < 212 + l then 6 else if dwy < 243 + l then 7 else if dwy < 273 + l then 8
      else if dwy < 304 + l then 9 else if dwy < 334 + l then 10 else 11)"

text \<open>Decimal digits, most significant first, padded with zeros to \<open>k\<close> places.\<close>

definition digit :: "int \<Rightarrow> char" where
  "digit n = char_of (48 + n)"

fun pad :: "nat \<Rightarrow> int \<Rightarrow> string" where
  "pad 0 n = []"
| "pad (Suc k) n = pad k (n div 10) @ [digit (n mod 10)]"

text \<open>
  \<^verbatim>\<open>Date.prototype.toISOString\<close>: \<^verbatim>\<open>YYYY-MM-DDTHH:mm:ss.sssZ\<close>, the year with a sign
  and six digits outside 0 to 9999. It raises RangeError on an invalid date: \<open>None\<close>.
\<close>

definition year_string :: "int \<Rightarrow> string" where
  "year_string y =
     (if 0 \<le> y \<and> y \<le> 9999 then pad 4 y
      else (if y < 0 then ''-'' else ''+'') @ pad 6 \<bar>y\<bar>)"

definition iso_of_time :: "int \<Rightarrow> string" where
  "iso_of_time t =
     (let d = Day t; ms = TimeWithinDay t;
          y = YearFromDay d; l = InLeapYear y;
          dwy = d - DayFromYear y; m = MonthFromDay l dwy
      in year_string y @ ''-'' @ pad 2 (m + 1) @ ''-'' @
         pad 2 (dwy - MonthStart l m + 1) @ ''T'' @
         pad 2 (ms div 3600000) @ '':'' @ pad 2 (ms div 60000 mod 60) @ '':'' @
         pad 2 (ms div 1000 mod 60) @ ''.'' @ pad 3 (ms mod 1000) @ ''Z'')"

fun toISOString :: "Date \<Rightarrow> string option" where
  "toISOString (Time t) = Some (iso_of_time t)"
| "toISOString Invalid_Date = None"

text \<open>
  Reading a date back. \<open>parse_iso\<close> recognises the form \<open>toISOString\<close> writes, with
  every field in range, and gives the time value ECMAScript's \<^verbatim>\<open>Date.parse\<close> assigns to
  it (MakeDay, MakeTime, MakeDate); \<open>None\<close> means "not of that form".
\<close>

definition is_digit :: "char \<Rightarrow> bool" where
  "is_digit c = (48 \<le> (of_char c :: int) \<and> (of_char c :: int) \<le> 57)"

definition digits_val :: "string \<Rightarrow> int option" where
  "digits_val s =
     (if s \<noteq> [] \<and> list_all is_digit s
      then Some (foldl (\<lambda>a c. 10 * a + (of_char c - 48)) 0 s) else None)"

definition field :: "string \<Rightarrow> nat \<Rightarrow> nat \<Rightarrow> int option" where
  "field s i n = digits_val (take n (drop i s))"

definition split_year :: "string \<Rightarrow> (int \<times> string \<times> string) option" where
  "split_year s =
     (case s of
        [] \<Rightarrow> None
      | c # cs \<Rightarrow>
          if c = CHR ''+'' then Some (1, take 6 cs, drop 6 cs)
          else if c = CHR ''-'' then Some (- 1, take 6 cs, drop 6 cs)
          else Some (1, take 4 s, drop 4 s))"

definition separators_ok :: "string \<Rightarrow> bool" where
  "separators_ok r =
     (length r = 20 \<and> r ! 0 = CHR ''-'' \<and> r ! 3 = CHR ''-'' \<and> r ! 6 = CHR ''T'' \<and>
      r ! 9 = CHR '':'' \<and> r ! 12 = CHR '':'' \<and> r ! 15 = CHR ''.'' \<and> r ! 19 = CHR ''Z'')"

definition MakeTime :: "int \<Rightarrow> int \<Rightarrow> int \<Rightarrow> int \<Rightarrow> int" where
  "MakeTime h mi s ms = h * 3600000 + mi * 60000 + s * 1000 + ms"

definition MakeDay :: "int \<Rightarrow> int \<Rightarrow> int \<Rightarrow> int" where
  "MakeDay y m dt = DayFromYear y + MonthStart (InLeapYear y) m + dt - 1"

definition DaysInMonth :: "int \<Rightarrow> int \<Rightarrow> int" where
  "DaysInMonth l m = (if m = 11 then 31 else MonthStart l (m + 1) - MonthStart l m)"

definition parse_iso :: "string \<Rightarrow> int option" where
  "parse_iso s =
     (case split_year s of
        None \<Rightarrow> None
      | Some (sign, ys, r) \<Rightarrow>
          if \<not> separators_ok r then None
          else
            (case (digits_val ys, field r 1 2, field r 4 2) of
               (Some yv, Some mo, Some dt) \<Rightarrow>
                 (case (field r 7 2, field r 10 2, field r 13 2, field r 16 3) of
                    (Some h, Some mi, Some sec, Some ms) \<Rightarrow>
                      (let y = sign * yv; m = mo - 1
                       in if (sign = - 1 \<and> yv = 0) \<or> mo < 1 \<or> 12 < mo \<or> dt < 1
                             \<or> DaysInMonth (InLeapYear y) m < dt
                             \<or> 23 < h \<or> 59 < mi \<or> 59 < sec
                          then None
                          else Some (MakeDay y m dt * msPerDay + MakeTime h mi sec ms))
                  | _ \<Rightarrow> None)
             | _ \<Rightarrow> None))"

text \<open>\<^verbatim>\<open>TimeClip\<close>: a time value beyond 8.64e15 ms from the epoch is NaN.\<close>

definition TimeClip :: "int \<Rightarrow> Date" where
  "TimeClip t = (if \<bar>t\<bar> \<le> maxTime then Time t else Invalid_Date)"

subsection \<open>The data model (lines 19 to 44)\<close>

record Shift =
  date :: Date
  pediatricAvailable :: bool
  adultAvailable :: bool

datatype providerType = Pediatric | Adult

text \<open>
  \<^verbatim>\<open>AvailableShift\<close> has the fields \<^verbatim>\<open>date\<close> and \<^verbatim>\<open>providerType\<close>; the fields of all
  records share one name space here, hence the prefix.
\<close>

record AvailableShift =
  slot_date :: Date
  slot_providerType :: providerType

text \<open>The values of the form, \<^verbatim>\<open>z.infer<typeof formSchema>\<close> before validation
  (\<^verbatim>\<open>notes\<close> is a reserved word here, hence \<open>notes_text\<close>).\<close>

record form_values =
  name :: string
  email :: string
  shiftDates :: "string list"
  providerType :: "providerType option"
  notes_text :: "string option"

definition defaultValues :: form_values where
  "defaultValues =
     \<lparr>name = '''', email = '''', shiftDates = [], providerType = None, notes_text = Some ''''\<rparr>"

subsection \<open>JSON values and the persisted text\<close>

text \<open>
  What \<^verbatim>\<open>JSON.parse\<close> returns. A number literal is the rational it denotes (rounding to
  a double is left out); the keys of an object are distinct.
\<close>

datatype json =
    JNull
  | JBool bool
  | JNum rat
  | JStr string
  | JArr "json list"
  | JObj "(string \<times> json) list"

text \<open>
  The text stored under the key \<^verbatim>\<open>clinicShifts\<close>, by what \<^verbatim>\<open>JSON.parse\<close> makes of it:
  the empty string (falsy in JavaScript; \<^verbatim>\<open>JSON.parse("")\<close> raises SyntaxError), any other
  text that \<^verbatim>\<open>JSON.parse\<close> rejects with SyntaxError, or a text denoting a JSON value.
  \<^verbatim>\<open>JSON.stringify\<close> writes a text that parses back to the value it serialised, so a text
  is identified with the value it denotes.
\<close>

datatype stored_text = Empty_text | Not_JSON | JSON_text json

datatype js_error = SyntaxError | TypeError | RangeError | AxiosError

text \<open>The two \<^verbatim>\<open>console.error\<close> calls of the component.\<close>

datatype log_entry =
    Error_parsing_stored_shifts js_error
  | Submission_error js_error

text \<open>
  \<^verbatim>\<open>JSON.stringify(shifts)\<close>: \<^verbatim>\<open>Date.prototype.toJSON\<close> gives the ISO string of a
  valid date and \<^verbatim>\<open>null\<close> for an invalid one.
\<close>

definition Shift_toJSON :: "Shift \<Rightarrow> json" where
  "Shift_toJSON shift =
     JObj [(''date'', (case toISOString (date shift) of Some isoString \<Rightarrow> JStr isoString | None \<Rightarrow> JNull)),
           (''pediatricAvailable'', JBool (pediatricAvailable shift)),
           (''adultAvailable'', JBool (adultAvailable shift))]"

definition JSON_stringify :: "Shift list \<Rightarrow> stored_text" where
  "JSON_stringify shifts = JSON_text (JArr (map Shift_toJSON shifts))"

text \<open>
  Reading a property of a parsed value: \<open>None\<close> is \<^verbatim>\<open>undefined\<close>. Only an object has
  the properties read here (\<^verbatim>\<open>date\<close>, \<^verbatim>\<open>pediatricAvailable\<close>, \<^verbatim>\<open>adultAvailable\<close>);
  reading a property of \<^verbatim>\<open>null\<close> raises TypeError, which the caller checks first.
\<close>

fun property :: "json \<Rightarrow> string \<Rightarrow> json option" where
  "property (JObj kvs) k = map_of kvs k"
| "property _ k = None"

text \<open>Truthiness of a value read in a condition; \<^verbatim>\<open>undefined\<close> is falsy.\<close>

fun truthy :: "json option \<Rightarrow> bool" where
  "truthy None = False"
| "truthy (Some JNull) = False"
| "truthy (Some (JBool b)) = b"
| "truthy (Some (JNum x)) = (x \<noteq> 0)"
| "truthy (Some (JStr s)) = (s \<noteq> [])"
| "truthy (Some (JArr xs)) = True"
| "truthy (Some (JObj kvs)) = True"

text \<open>
  Converting a parsed value to a string raises TypeError on an object with a property
  \<^verbatim>\<open>toString\<close> of its own: no JSON value is callable, and the inherited \<^verbatim>\<open>valueOf\<close>
  returns the object itself (OrdinaryToPrimitive). An array is joined from the strings of
  its elements, \<^verbatim>\<open>null\<close> giving the empty string, so it raises when an element does.
\<close>

fun toString_raises :: "json \<Rightarrow> bool" where
  "toString_raises (JObj kvs) = (''toString'' \<in> set (map fst kvs))"
| "toString_raises (JArr xs) = list_ex toString_raises xs"
| "toString_raises j = False"

text \<open>
  \<^verbatim>\<open>new Date(v)\<close> for a value read from parsed JSON. ECMAScript fixes the result for
  \<^verbatim>\<open>undefined\<close> (NaN), \<^verbatim>\<open>null\<close> (0), booleans (0 and 1), numbers (truncated, then
  TimeClip) and strings in the date-time format. An array or an object is converted to
  a string first, which can raise. What the engine makes of a string in another form,
  and of the string of an array or an object, is the parameter \<open>impl\<close>: the model fixes
  nothing about it.
\<close>

definition truncate_rat :: "rat \<Rightarrow> int" where
  "truncate_rat x = (if 0 \<le> x then \<lfloor>x\<rfloor> else \<lceil>x\<rceil>)"

fun new_Date :: "(json \<Rightarrow> Date) \<Rightarrow> json option \<Rightarrow> js_error + Date" where
  "new_Date impl None = Inr Invalid_Date"
| "new_Date impl (Some JNull) = Inr (Time 0)"
| "new_Date impl (Some (JBool b)) = Inr (Time (if b then 1 else 0))"
| "new_Date impl (Some (JNum x)) =
     Inr (if \<bar>x\<bar> \<le> of_int maxTime then Time (truncate_rat x) else Invalid_Date)"
| "new_Date impl (Some (JStr s)) =
     Inr (case parse_iso s of Some t \<Rightarrow> TimeClip t | None \<Rightarrow> impl (JStr s))"
| "new_Date impl (Some (JArr xs)) =
     (if toString_raises (JArr xs) then Inl TypeError else Inr (impl (JArr xs)))"
| "new_Date impl (Some (JObj kvs)) =
     (if toString_raises (JObj kvs) then Inl TypeError else Inr (impl (JObj kvs)))"

text \<open>
  The callback of line 101, \<^verbatim>\<open>(shift: any) => ({...shift, date: new Date(shift.date)})\<close>.
  It raises TypeError on \<^verbatim>\<open>null\<close> (reading \<^verbatim>\<open>shift.date\<close>) and when \<^verbatim>\<open>new Date\<close> does.
  The state is typed \<^verbatim>\<open>Shift[]\<close>, and the component reads the two flags in conditions
  only, so the model keeps their truthiness and drops any other property the stored
  object has.
\<close>

definition revive :: "(json \<Rightarrow> Date) \<Rightarrow> json \<Rightarrow> js_error + Shift" where
  "revive impl shift =
     (if shift = JNull then Inl TypeError
      else
        (case new_Date impl (property shift ''date'') of
           Inl e \<Rightarrow> Inl e
         | Inr d \<Rightarrow>
             Inr \<lparr>date = d,
                  pediatricAvailable = truthy (property shift ''pediatricAvailable''),
                  adultAvailable = truthy (property shift ''adultAvailable'')\<rparr>))"

text \<open>\<^verbatim>\<open>Array.prototype.map\<close> with a callback that can raise: the first error ends it.\<close>

fun map_raising :: "('a \<Rightarrow> js_error + 'b) \<Rightarrow> 'a list \<Rightarrow> js_error + 'b list" where
  "map_raising f [] = Inr []"
| "map_raising f (x # xs) =
     (case f x of
        Inl e \<Rightarrow> Inl e
      | Inr y \<Rightarrow> (case map_raising f xs of Inl e \<Rightarrow> Inl e | Inr ys \<Rightarrow> Inr (y # ys)))"

text \<open>
  The body of the \<^verbatim>\<open>try\<close> of lines 100 to 105: \<^verbatim>\<open>JSON.parse(storedShifts).map(...)\<close>.
  \<^verbatim>\<open>JSON.parse\<close> raises SyntaxError on a text that is not JSON; \<^verbatim>\<open>.map\<close> raises
  TypeError on a value that is not an array, and the callback can raise.
\<close>

fun parsedShifts :: "(json \<Rightarrow> Date) \<Rightarrow> stored_text \<Rightarrow> js_error + Shift list" where
  "parsedShifts impl Empty_text = Inl SyntaxError"
| "parsedShifts impl Not_JSON = Inl SyntaxError"
| "parsedShifts impl (JSON_text (JArr xs)) = map_raising (revive impl) xs"
| "parsedShifts impl (JSON_text _) = Inl TypeError"

subsection \<open>The availability projection (lines 128 to 139)\<close>

definition availableShifts :: "Shift list \<Rightarrow> providerType option \<Rightarrow> AvailableShift list" where
  "availableShifts shifts watchProviderType =
     filter (\<lambda>shift. watchProviderType = None \<or> Some (slot_providerType shift) = watchProviderType)
       (concat (map (\<lambda>shift.
          (if pediatricAvailable shift
           then [\<lparr>slot_date = date shift, slot_providerType = Pediatric\<rparr>] else []) @
          (if adultAvailable shift
           then [\<lparr>slot_date = date shift, slot_providerType = Adult\<rparr>] else [])) shifts))"

text \<open>The availability flag of a shift for a provider type (used to state properties).\<close>

fun available :: "providerType \<Rightarrow> Shift \<Rightarrow> bool" where
  "available Pediatric shift = pediatricAvailable shift"
| "available Adult shift = adultAvailable shift"

subsection \<open>The operations on the collection (lines 158 to 167 and 179 to 186)\<close>

text \<open>\<^verbatim>\<open>Array.prototype.findIndex\<close>; \<open>None\<close> is its \<open>-1\<close>.\<close>

fun findIndex :: "('a \<Rightarrow> bool) \<Rightarrow> 'a list \<Rightarrow> nat option" where
  "findIndex P [] = None"
| "findIndex P (x # xs) = (if P x then Some 0 else map_option Suc (findIndex P xs))"

text \<open>The array \<^verbatim>\<open>updatedShifts\<close> of \<^verbatim>\<open>addOrUpdateShift\<close>: the store's upsert.\<close>

definition upsert :: "Shift list \<Rightarrow> Shift \<Rightarrow> Shift list" where
  "upsert shifts newShift =
     (case findIndex (\<lambda>shift. strict_equal (getTime (date shift)) (getTime (date newShift))) shifts of
        Some existingShiftIndex \<Rightarrow>
          map (\<lambda>(index, shift). if index = existingShiftIndex then newShift else shift)
            (enumerate 0 shifts)
      | None \<Rightarrow> shifts @ [newShift])"

text \<open>
  The invariant of the store: no two shifts at different places have equal dates, dates
  compared as the code compares them (\<^verbatim>\<open>getTime() === getTime()\<close>).
\<close>

fun one_shift_per_date :: "Shift list \<Rightarrow> bool" where
  "one_shift_per_date [] = True"
| "one_shift_per_date (shift # rest) =
     (\<not> list_ex (\<lambda>other. strict_equal (getTime (date shift)) (getTime (date other))) rest
      \<and> one_shift_per_date rest)"

text \<open>
  The callback of lines 158 to 167 once \<^verbatim>\<open>shiftDateString\<close> is known. It assigns to the
  fields of the shift it is given.
\<close>

definition clear_flags :: "string list \<Rightarrow> string \<Rightarrow> Shift \<Rightarrow> Shift" where
  "clear_flags dates shiftDateString shift =
     (let shift1 = (if shiftDateString @ ''-pediatric'' \<in> set dates
                    then shift\<lparr>pediatricAvailable := False\<rparr> else shift)
      in if shiftDateString @ ''-adult'' \<in> set dates
         then shift1\<lparr>adultAvailable := False\<rparr> else shift1)"

text \<open>
  \<^verbatim>\<open>shifts.map(...)\<close> of line 158. The callback mutates the objects of the state's
  array in place and \<^verbatim>\<open>toISOString\<close> raises RangeError on an invalid date, so the
  result is the objects as the loop leaves them, and the error if it stopped early:
  the shifts before the invalid one are already changed, the rest are not.
\<close>

fun updatedShifts :: "string list \<Rightarrow> Shift list \<Rightarrow> Shift list \<times> js_error option" where
  "updatedShifts dates [] = ([], None)"
| "updatedShifts dates (shift # rest) =
     (case toISOString (date shift) of
        None \<Rightarrow> (shift # rest, Some RangeError)
      | Some shiftDateString \<Rightarrow>
          (let (rest', err) = updatedShifts dates rest
           in (clear_flags dates shiftDateString shift # rest', err)))"

subsection \<open>The state of the component (lines 88 to 93) and its surroundings\<close>

text \<open>The body of the POST: the validated values and the fixed carbon-copy address.\<close>

record payload =
  posted_values :: form_values
  cc :: string

record app_state =
  isSubmitting :: bool
  submitSuccess :: bool
  shifts :: "Shift list"
  isAdmin :: bool
  selectedDate :: "Date option"
  isClient :: bool
  form :: form_values
  form_errors :: "(string \<times> string) list"
  localStorage :: "stored_text option"
  console :: "log_entry list"
  posted :: "payload list"

text \<open>
  The state at the first render: the \<^verbatim>\<open>useState\<close> defaults, the form's defaults, and
  whatever the browser holds under the key.
\<close>

definition initial_state :: "stored_text option \<Rightarrow> app_state" where
  "initial_state stored =
     \<lparr>isSubmitting = False, submitSuccess = False, shifts = [], isAdmin = False,
      selectedDate = None, isClient = False, form = defaultValues, form_errors = [],
      localStorage = stored, console = [], posted = []\<rparr>"

subsection \<open>Loading (the effect of lines 95 to 114)\<close>

text \<open>
  \<open>adminParam\<close> is \<^verbatim>\<open>urlParams.get("admin")\<close>. The \<^verbatim>\<open>if (storedShifts)\<close> of line 99
  skips a missing item and the empty string; the \<^verbatim>\<open>catch\<close> logs and goes on.
\<close>

definition load :: "(json \<Rightarrow> Date) \<Rightarrow> app_state \<Rightarrow> app_state" where
  "load impl st =
     (case localStorage st of
        None \<Rightarrow> st
      | Some storedShifts \<Rightarrow>
          if storedShifts = Empty_text then st
          else
            (case parsedShifts impl storedShifts of
               Inr ps \<Rightarrow> st\<lparr>shifts := ps\<rparr>
             | Inl error \<Rightarrow> st\<lparr>console := console st @ [Error_parsing_stored_shifts error]\<rparr>))"

definition mount :: "(json \<Rightarrow> Date) \<Rightarrow> string option \<Rightarrow> app_state \<Rightarrow> app_state" where
  "mount impl adminParam st =
     (load impl (st\<lparr>isClient := True\<rparr>))\<lparr>isAdmin := (adminParam = Some ''true'')\<rparr>"

subsection \<open>Submission (lines 147 to 176)\<close>

text \<open>
  What \<^verbatim>\<open>axios.post\<close> does: it resolves on a 2xx response and rejects on any other
  status and on a network error.
\<close>

datatype post_outcome = Accepted | Rejected

text \<open>
  The handler, taken as one step: no other handler runs while the request is pending.
  An accepted POST is followed by \<^verbatim>\<open>setSubmitSuccess(true)\<close>, \<^verbatim>\<open>form.reset()\<close> and the
  clearing loop; an exception of the loop lands in the same \<^verbatim>\<open>catch\<close> as a rejected POST,
  with the shifts the loop already changed left changed.
\<close>

definition onSubmit :: "form_values \<Rightarrow> post_outcome \<Rightarrow> app_state \<Rightarrow> app_state" where
  "onSubmit values outcome st =
     (let st1 = st\<lparr>isSubmitting := True,
                    posted := posted st @ [\<lparr>posted_values = values, cc = ''chasecomprosky@ufl.edu''\<rparr>]\<rparr>
      in case outcome of
           Rejected \<Rightarrow>
             st1\<lparr>console := console st1 @ [Submission_error AxiosError],
                  submitSuccess := False, isSubmitting := False\<rparr>
         | Accepted \<Rightarrow>
             (let st2 = st1\<lparr>submitSuccess := True, form := defaultValues\<rparr>
              in case updatedShifts (shiftDates values) (shifts st2) of
                   (updated, None) \<Rightarrow>
                     st2\<lparr>shifts := updated, localStorage := Some (JSON_stringify updated),
                          isSubmitting := False\<rparr>
                 | (mutated, Some error) \<Rightarrow>
                     st2\<lparr>shifts := mutated, console := console st2 @ [Submission_error error],
                          submitSuccess := False, isSubmitting := False\<rparr>))"

subsection \<open>Validation (lines 30 to 44) and \<^verbatim>\<open>form.handleSubmit\<close> (line 225)\<close>

text \<open>
  The issues of \<^verbatim>\<open>formSchema\<close>, as field and message, in the schema's order. Whether a
  string is an email address is the validation library's own test, the parameter
  \<open>is_email\<close>. A string is the list of its code units, so \<open>length\<close> is \<^verbatim>\<open>.length\<close>.
\<close>

definition formSchema :: "(string \<Rightarrow> bool) \<Rightarrow> form_values \<Rightarrow> (string \<times> string) list" where
  "formSchema is_email values =
     (if length (name values) < 2
      then [(''name'', ''Name must be at least 2 characters.'')] else []) @
     (if \<not> is_email (email values)
      then [(''email'', ''Please enter a valid email address.'')] else []) @
     (if length (shiftDates values) < 1
      then [(''shiftDates'', ''Please select at least one shift date.'')] else []) @
     (case providerType values of
        None \<Rightarrow> [(''providerType'', ''Please select a provider type.'')]
      | Some p \<Rightarrow> [])"

text \<open>
  \<^verbatim>\<open>form.handleSubmit(onSubmit)\<close>: the resolver runs first; with issues the form shows
  them and the handler is not called.
\<close>

definition handleSubmit :: "(string \<Rightarrow> bool) \<Rightarrow> post_outcome \<Rightarrow> app_state \<Rightarrow> app_state" where
  "handleSubmit is_email outcome st =
     (let errors = formSchema is_email (form st)
      in if errors = [] then onSubmit (form st) outcome (st\<lparr>form_errors := []\<rparr>)
         else st\<lparr>form_errors := errors\<rparr>)"

subsection \<open>Rendering the slots (lines 193 to 204 and 280 to 283)\<close>

text \<open>
  The component renders nothing before the client effect has run and the thank-you view
  after a success. Otherwise the form lists the available slots, each under the key
  \<^verbatim>\<open>`${shift.date.toISOString()}-${shift.providerType}`\<close>, and \<^verbatim>\<open>toISOString\<close> raises
  RangeError on an invalid date: the render throws. The result is the list of keys.
\<close>

fun providerType_string :: "providerType \<Rightarrow> string" where
  "providerType_string Pediatric = ''pediatric''"
| "providerType_string Adult = ''adult''"

definition slot_key :: "AvailableShift \<Rightarrow> js_error + string" where
  "slot_key shift =
     (case toISOString (slot_date shift) of
        None \<Rightarrow> Inl RangeError
      | Some s \<Rightarrow> Inr (s @ ''-'' @ providerType_string (slot_providerType shift)))"

definition render_slots :: "app_state \<Rightarrow> js_error + string list" where
  "render_slots st =
     (if \<not> isClient st then Inr []
      else if submitSuccess st then Inr []
      else map_raising slot_key (availableShifts (shifts st) (providerType (form st))))"

subsection \<open>The admin editor's save (lines 178 to 191)\<close>

definition addOrUpdateShift :: "Shift \<Rightarrow> app_state \<Rightarrow> app_state" where
  "addOrUpdateShift newShift st =
     (let updated = upsert (shifts st) newShift
      in st\<lparr>shifts := updated, localStorage := Some (JSON_stringify updated),
            selectedDate := None\<rparr>)"

subsection \<open>The scenario of the specification\<close>

text \<open>
  One shift on 2024-06-01T00:00:00Z, open to pediatric providers only; a shift whose date
  did not survive loading; a sign-up for the pediatric slot of the first; and a stored
  text whose first record has no date.
\<close>

definition june_first :: Shift where
  "june_first = \<lparr>date = Time 1717200000000, pediatricAvailable = True, adultAvailable = False\<rparr>"

definition undated :: Shift where
  "undated = \<lparr>date = Invalid_Date, pediatricAvailable = False, adultAvailable = False\<rparr>"

definition signup :: form_values where
  "signup = \<lparr>name = ''Dr. Jane Doe'', email = ''doctor@example.com'',
              shiftDates = [''2024-06-01T00:00:00.000Z-pediatric''],
              providerType = Some Pediatric, notes_text = Some ''''\<rparr>"


text \<open>The stored text \<^verbatim>\<open>[{"pediatricAvailable":true}]\<close>: JSON, an array, but no shift.\<close>

definition dateless_store :: stored_text where
  "dateless_store = JSON_text (JArr [JObj [(''pediatricAvailable'', JBool True)]])"

section \<open>Properties\<close>

subsection \<open>Dates: the ISO string of a time value reads back as that time value\<close>

text \<open>
  The round trip that ECMAScript promises for \<^verbatim>\<open>Date.parse(d.toISOString())\<close>, proved of
  the functions above for every time value a \<^verbatim>\<open>Date\<close> can hold.
\<close>

lemma of_char_digit: "0 \<le> d \<Longrightarrow> d < 10 \<Longrightarrow> (of_char (digit d) :: int) = 48 + d"
  by (simp add: digit_def)

lemma is_digit_digit: "0 \<le> d \<Longrightarrow> d < 10 \<Longrightarrow> is_digit (digit d)"
  by (simp add: is_digit_def of_char_digit)

lemma length_pad: "length (pad k n) = k"
  by (induction k arbitrary: n) simp_all

lemma pad_all_digits: "list_all is_digit (pad k n)"
  by (induction k arbitrary: n) (simp_all add: is_digit_digit)

lemma foldl_pad:
  "0 \<le> n \<Longrightarrow> foldl (\<lambda>a c. 10 * a + (of_char c - 48)) a (pad k n) = a * 10 ^ k + n mod 10 ^ k"
proof (induction k arbitrary: n a)
  case 0
  show ?case by simp
next
  case (Suc k)
  from Suc.prems have "0 \<le> n div 10" by simp
  from Suc.IH [OF this, of a]
  have "foldl (\<lambda>a c. 10 * a + (of_char c - 48)) a (pad (Suc k) n)
      = 10 * (a * 10 ^ k + (n div 10) mod 10 ^ k) + n mod 10"
    by (simp add: of_char_digit)
  also have "\<dots> = a * 10 ^ Suc k + (10 * ((n div 10) mod 10 ^ k) + n mod 10)"
    by (simp add: algebra_simps)
  also have "10 * ((n div 10) mod 10 ^ k) + n mod 10 = n mod 10 ^ Suc k"
    by (simp add: zmod_zmult2_eq)
  finally show ?case .
qed

lemma digits_val_pad:
  "0 < k \<Longrightarrow> 0 \<le> n \<Longrightarrow> n < 10 ^ k \<Longrightarrow> digits_val (pad k n) = Some n"
  using foldl_pad [of n 0 k] length_pad [of k n]
  by (auto simp add: digits_val_def pad_all_digits)

lemma div_bounds: "0 < n \<Longrightarrow> n * (a div n) \<le> a \<and> a < n * (a div n) + n" for a n :: int
proof -
  assume n: "0 < n"
  have "a = n * (a div n) + a mod n" by simp
  moreover from n have "0 \<le> a mod n" "a mod n < n" by simp_all
  ultimately show ?thesis by linarith
qed

lemma DayFromYear_estimate_low: "DayFromYear (1970 + (d * 400) div 146097 - 1) \<le> d"
proof -
  define q where "q = (d * 400) div 146097"
  define A B C where "A = q div 4" and "B = (q + 68) div 100" and "C = (q + 368) div 400"
  have q: "146097 * q \<le> d * 400"
    using div_bounds [of 146097 "d * 400"] by (simp add: q_def)
  have a: "4 * A \<le> q"
    using div_bounds [of 4 q] by (simp add: A_def)
  have b: "q + 68 < 100 * B + 100"
    using div_bounds [of 100 "q + 68"] by (simp add: B_def)
  have c: "400 * C \<le> q + 368"
    using div_bounds [of 400 "q + 368"] by (simp add: C_def)
  have "DayFromYear (1970 + q - 1) = 365 * (q - 1) + A - B + C"
    by (simp add: DayFromYear_def add.commute A_def B_def C_def)
  moreover have "365 * (q - 1) + A - B + C \<le> d"
  proof -
    define E where "E = 365 * (q - 1) + A - B + C"
    have "400 * E = 146000 * q - 146000 + 400 * A - 400 * B + 400 * C"
      by (simp add: E_def algebra_simps)
    with q a b c have "E \<le> d" by linarith
    then show ?thesis by (simp add: E_def)
  qed
  ultimately show ?thesis
    unfolding q_def [symmetric] by simp
qed

lemma DayFromYear_estimate_high: "d < DayFromYear (1970 + (d * 400) div 146097 + 2)"
proof -
  define q where "q = (d * 400) div 146097"
  define A B C where "A = (q + 3) div 4" and "B = (q + 71) div 100" and "C = (q + 371) div 400"
  have q: "d * 400 < 146097 * q + 146097"
    using div_bounds [of 146097 "d * 400"] by (simp add: q_def)
  have a: "q + 3 < 4 * A + 4"
    using div_bounds [of 4 "q + 3"] by (simp add: A_def)
  have b: "100 * B \<le> q + 71"
    using div_bounds [of 100 "q + 71"] by (simp add: B_def)
  have c: "q + 371 < 400 * C + 400"
    using div_bounds [of 400 "q + 371"] by (simp add: C_def)
  have "DayFromYear (1970 + q + 2) = 365 * (q + 2) + A - B + C"
    by (simp add: DayFromYear_def add.commute A_def B_def C_def)
  moreover have "d < 365 * (q + 2) + A - B + C"
  proof -
    define E where "E = 365 * (q + 2) + A - B + C"
    have "400 * E = 146000 * q + 292000 + 400 * A - 400 * B + 400 * C"
      by (simp add: E_def algebra_simps)
    with q a b c have "d < E" by linarith
    then show ?thesis by (simp add: E_def)
  qed
  ultimately show ?thesis
    unfolding q_def [symmetric] by simp
qed

lemma div_succ:
  "0 < n \<Longrightarrow> (a + 1) div n = a div n + (if (a + 1) mod n = 0 then 1 else 0)" for a n :: int
proof -
  assume n: "0 < n"
  define q r where "q = a div n" and "r = a mod n"
  have a: "a = n * q + r" and r: "0 \<le> r" "r < n"
    using n by (simp_all add: q_def r_def)
  show ?thesis
  proof (cases "r + 1 = n")
    case True
    then have eq: "a + 1 = n * (q + 1) + 0" using a by (simp add: algebra_simps)
    have "(a + 1) div n = q + 1"
      using eq _ n by (rule int_div_pos_eq) simp
    moreover have "(a + 1) mod n = 0"
      using eq _ n by (rule int_mod_pos_eq) simp
    ultimately show ?thesis by (simp add: q_def)
  next
    case False
    with r have r1: "0 \<le> r + 1" "r + 1 < n" by simp_all
    have eq: "a + 1 = n * q + (r + 1)" using a by simp
    have "(a + 1) div n = q"
      using eq r1 by (rule int_div_pos_eq)
    moreover have "(a + 1) mod n = r + 1"
      using eq r1 by (rule int_mod_pos_eq)
    ultimately show ?thesis using r by (simp add: q_def)
  qed
qed

lemma mod_shift: "(a - n * k) mod n = a mod n" for a n k :: int
  using mod_mult_self2 [of a n "- k"] by simp

lemma DayFromYear_step: "DayFromYear (y + 1) = DayFromYear y + DaysInYear y"
proof -
  have a: "(y + 1 - 1969) div 4 = (y - 1969) div 4 + (if y mod 4 = 0 then 1 else 0)"
  proof -
    have "(y - 1969 + 1) mod 4 = y mod 4"
      using mod_shift [of y 4 492] by simp
    with div_succ [of 4 "y - 1969"] show ?thesis by (simp add: algebra_simps)
  qed
  have b: "(y + 1 - 1901) div 100 = (y - 1901) div 100 + (if y mod 100 = 0 then 1 else 0)"
  proof -
    have "(y - 1901 + 1) mod 100 = y mod 100"
      using mod_shift [of y 100 19] by simp
    with div_succ [of 100 "y - 1901"] show ?thesis by (simp add: algebra_simps)
  qed
  have c: "(y + 1 - 1601) div 400 = (y - 1601) div 400 + (if y mod 400 = 0 then 1 else 0)"
  proof -
    have "(y - 1601 + 1) mod 400 = y mod 400"
      using mod_shift [of y 400 4] by simp
    with div_succ [of 400 "y - 1601"] show ?thesis by (simp add: algebra_simps)
  qed
  have d: "y mod 100 = 0" if "y mod 400 = 0"
    using that mod_mod_cancel [of 100 400 y] by simp
  have e: "y mod 4 = 0" if "y mod 100 = 0"
    using that mod_mod_cancel [of 4 100 y] by simp
  define A B C where "A = (y - 1969) div 4" and "B = (y - 1901) div 100" and "C = (y - 1601) div 400"
  show ?thesis
    unfolding DayFromYear_def DaysInYear_def a b c A_def [symmetric] B_def [symmetric] C_def [symmetric]
    using d e by (simp split: if_splits)
qed

lemma DaysInYear_cases: "DaysInYear y = 365 \<or> DaysInYear y = 366"
  by (simp add: DaysInYear_def)

lemma InLeapYear_cases: "InLeapYear y = 0 \<or> InLeapYear y = 1"
  using DaysInYear_cases [of y] by (auto simp add: InLeapYear_def)

lemma YearFromDay_bracket:
  "DayFromYear (YearFromDay d) \<le> d \<and> d < DayFromYear (YearFromDay d) + DaysInYear (YearFromDay d)"
proof -
  define y0 where "y0 = 1970 + (d * 400) div 146097"
  have low: "DayFromYear (y0 - 1) \<le> d"
    using DayFromYear_estimate_low [of d] by (simp add: y0_def)
  have high: "d < DayFromYear (y0 + 1) + DaysInYear (y0 + 1)"
    using DayFromYear_estimate_high [of d] DayFromYear_step [of "y0 + 1"]
    by (simp add: y0_def)
  have s0: "DayFromYear y0 = DayFromYear (y0 - 1) + DaysInYear (y0 - 1)"
    using DayFromYear_step [of "y0 - 1"] by simp
  have s1: "DayFromYear (y0 + 1) = DayFromYear y0 + DaysInYear y0"
    by (rule DayFromYear_step)
  consider (up) "DayFromYear (y0 + 1) \<le> d"
    | (mid) "\<not> DayFromYear (y0 + 1) \<le> d" "DayFromYear y0 \<le> d"
    | (down) "\<not> DayFromYear (y0 + 1) \<le> d" "\<not> DayFromYear y0 \<le> d"
    by blast
  then show ?thesis
  proof cases
    case up
    then have "YearFromDay d = y0 + 1"
      by (simp add: YearFromDay_def y0_def [symmetric] Let_def)
    with up high show ?thesis by simp
  next
    case mid
    then have "YearFromDay d = y0"
      by (simp add: YearFromDay_def y0_def [symmetric] Let_def)
    with mid s1 show ?thesis by simp
  next
    case down
    then have "YearFromDay d = y0 - 1"
      by (simp add: YearFromDay_def y0_def [symmetric] Let_def)
    with down low s0 show ?thesis by simp
  qed
qed

lemma YearFromDay_near:
  "\<bar>YearFromDay d - (1970 + (d * 400) div 146097)\<bar> \<le> 1"
  by (simp add: YearFromDay_def Let_def)

lemma month_of_day:
  assumes "l = 0 \<or> l = 1" and "0 \<le> dwy" and "dwy < 365 + l"
  shows "0 \<le> MonthFromDay l dwy \<and> MonthFromDay l dwy \<le> 11
    \<and> MonthStart l (MonthFromDay l dwy) \<le> dwy
    \<and> dwy - MonthStart l (MonthFromDay l dwy) + 1 \<le> DaysInMonth l (MonthFromDay l dwy)"
  using assms by (auto simp add: MonthFromDay_def MonthStart_def DaysInMonth_def)

lemma DaysInMonth_le: "l = 0 \<or> l = 1 \<Longrightarrow> DaysInMonth l m \<le> 31"
  by (auto simp add: DaysInMonth_def MonthStart_def)

lemma MakeTime_parts:
  assumes "0 \<le> ms" and "ms < 86400000"
  shows "MakeTime (ms div 3600000) (ms div 60000 mod 60) (ms div 1000 mod 60) (ms mod 1000) = ms"
    and "ms div 3600000 \<le> 23"
proof -
  define k1 r k2 s h mi where "k1 = ms div 1000" and "r = ms mod 1000"
    and "k2 = k1 div 60" and "s = k1 mod 60" and "h = k2 div 60" and "mi = k2 mod 60"
  have a: "ms = 1000 * k1 + r" by (simp add: k1_def r_def)
  have b: "k1 = 60 * k2 + s" by (simp add: k2_def s_def)
  have c: "k2 = 60 * h + mi" by (simp add: h_def mi_def)
  have nonneg: "0 \<le> r" "0 \<le> s" "0 \<le> mi" by (simp_all add: r_def s_def mi_def)
  have k2: "ms div 60000 = k2"
    using zdiv_zmult2_eq [of 60 ms 1000] by (simp add: k2_def k1_def)
  have "ms div 3600000 = ms div 60000 div 60"
    using zdiv_zmult2_eq [of 60 ms 60000] by simp
  then have h: "ms div 3600000 = h" by (simp add: k2 h_def)
  from a b c have total: "3600000 * h + 60000 * mi + 1000 * s + r = ms" by linarith
  then show "MakeTime (ms div 3600000) (ms div 60000 mod 60) (ms div 1000 mod 60) (ms mod 1000) = ms"
    unfolding h k2 by (simp add: MakeTime_def mi_def s_def k1_def r_def)
  from total nonneg assms(2) have "h \<le> 23" by linarith
  then show "ms div 3600000 \<le> 23" by (simp add: h)
qed

lemma digit_not_sign:
  assumes "0 \<le> k" and "k < 10"
  shows "digit k \<noteq> CHR ''+''" and "digit k \<noteq> CHR ''-''"
proof -
  have d: "(of_char (digit k) :: int) = 48 + k"
    using assms by (rule of_char_digit)
  show "digit k \<noteq> CHR ''+''"
  proof
    assume "digit k = CHR ''+''"
    then have "(of_char (digit k) :: int) = of_char CHR ''+''" by (rule arg_cong)
    with d assms show False by simp
  qed
  show "digit k \<noteq> CHR ''-''"
  proof
    assume "digit k = CHR ''-''"
    then have "(of_char (digit k) :: int) = of_char CHR ''-''" by (rule arg_cong)
    with d assms show False by simp
  qed
qed


lemma pad2: "pad 2 n = [digit (n div 10 mod 10), digit (n mod 10)]"
  by (simp add: numeral_2_eq_2)

lemma pad4_hd: "\<exists>cs. pad 4 n = digit (n div 10 div 10 div 10 mod 10) # cs \<and> length cs = 3"
  by (simp add: eval_nat_numeral)

lemma split_year_unsigned:
  assumes "0 \<le> y"
  shows "split_year (pad 4 y @ r) = Some (1, pad 4 y, r)"
proof -
  from pad4_hd [of y] obtain cs
    where cs: "pad 4 y = digit (y div 10 div 10 div 10 mod 10) # cs" "length cs = 3"
    by blast
  have "0 \<le> y div 10 div 10 div 10 mod 10" "y div 10 div 10 div 10 mod 10 < 10"
    by simp_all
  from digit_not_sign [OF this] cs show ?thesis
    by (simp add: split_year_def)
qed

lemma split_year_signed:
  "split_year ((CHR ''+'' # pad 6 n) @ r) = Some (1, pad 6 n, r)"
  "split_year ((CHR ''-'' # pad 6 n) @ r) = Some (- 1, pad 6 n, r)"
  by (simp_all add: split_year_def length_pad)

lemma split_year_string:
  assumes "\<bar>y\<bar> < 1000000"
  shows "\<exists>sign ys yv. split_year (year_string y @ r) = Some (sign, ys, r)
           \<and> digits_val ys = Some yv \<and> sign * yv = y \<and> \<not> (sign = - 1 \<and> yv = 0)"
proof (cases "0 \<le> y \<and> y \<le> 9999")
  case True
  then have "digits_val (pad 4 y) = Some y"
    by (intro digits_val_pad) simp_all
  with True show ?thesis
    by (simp add: year_string_def split_year_unsigned)
next
  case False
  from assms have d: "digits_val (pad 6 \<bar>y\<bar>) = Some \<bar>y\<bar>"
    by (intro digits_val_pad) simp_all
  show ?thesis
  proof (cases "y < 0")
    case True
    with False d show ?thesis
      using split_year_signed(2) [of "\<bar>y\<bar>" r] by (simp add: year_string_def)
  next
    case False
    with \<open>\<not> (0 \<le> y \<and> y \<le> 9999)\<close> d show ?thesis
      using split_year_signed(1) [of "\<bar>y\<bar>" r] by (simp add: year_string_def)
  qed
qed

lemma rest_fields:
  assumes "length a = 2" "length b = 2" "length c = 2" "length d = 2" "length e = 2"
    and "length f = 3"
  defines "r \<equiv> ''-'' @ a @ ''-'' @ b @ ''T'' @ c @ '':'' @ d @ '':'' @ e @ ''.'' @ f @ ''Z''"
  shows "separators_ok r" and "field r 1 2 = digits_val a" and "field r 4 2 = digits_val b"
    and "field r 7 2 = digits_val c" and "field r 10 2 = digits_val d"
    and "field r 13 2 = digits_val e" and "field r 16 3 = digits_val f"
proof -
  obtain a1 a2 where a: "a = [a1, a2]"
    using assms(1) by (auto simp add: length_Suc_conv numeral_2_eq_2)
  obtain b1 b2 where b: "b = [b1, b2]"
    using assms(2) by (auto simp add: length_Suc_conv numeral_2_eq_2)
  obtain c1 c2 where c: "c = [c1, c2]"
    using assms(3) by (auto simp add: length_Suc_conv numeral_2_eq_2)
  obtain d1 d2 where d: "d = [d1, d2]"
    using assms(4) by (auto simp add: length_Suc_conv numeral_2_eq_2)
  obtain e1 e2 where e: "e = [e1, e2]"
    using assms(5) by (auto simp add: length_Suc_conv numeral_2_eq_2)
  obtain f1 f2 f3 where f: "f = [f1, f2, f3]"
    using assms(6) by (auto simp add: length_Suc_conv numeral_3_eq_3)
  have r: "r = [CHR ''-'', a1, a2, CHR ''-'', b1, b2, CHR ''T'', c1, c2, CHR '':'', d1, d2,
               CHR '':'', e1, e2, CHR ''.'', f1, f2, f3, CHR ''Z'']"
    by (simp add: r_def a b c d e f)
  show "separators_ok r"
    unfolding r separators_ok_def by (simp add: eval_nat_numeral)
  show "field r 1 2 = digits_val a" "field r 4 2 = digits_val b" "field r 7 2 = digits_val c"
    "field r 10 2 = digits_val d" "field r 13 2 = digits_val e" "field r 16 3 = digits_val f"
    unfolding r field_def a b c d e f by (simp_all add: eval_nat_numeral)
qed

lemma Day_bounds:
  assumes "\<bar>t\<bar> \<le> maxTime"
  shows "- 100000000 \<le> Day t" and "Day t \<le> 100000000"
proof -
  define d where "d = t div 86400000"
  have "86400000 * d \<le> t" "t < 86400000 * d + 86400000"
    using div_bounds [of 86400000 t] by (simp_all add: d_def)
  moreover from assms have "- 8640000000000000 \<le> t" "t \<le> 8640000000000000"
    by (simp_all add: maxTime_def)
  ultimately have "- 100000000 \<le> d" "d \<le> 100000000" by linarith+
  then show "- 100000000 \<le> Day t" and "Day t \<le> 100000000"
    by (simp_all add: Day_def msPerDay_def d_def)
qed

lemma YearFromDay_bound:
  assumes "- 100000000 \<le> d" and "d \<le> 100000000"
  shows "\<bar>YearFromDay d\<bar> < 1000000"
proof -
  define q where "q = (d * 400) div 146097"
  have "146097 * q \<le> d * 400" "d * 400 < 146097 * q + 146097"
    using div_bounds [of 146097 "d * 400"] by (simp_all add: q_def)
  with assms have "- 300000 \<le> q" "q \<le> 300000" by linarith+
  moreover have "\<bar>YearFromDay d - (1970 + q)\<bar> \<le> 1"
    unfolding q_def by (rule YearFromDay_near)
  ultimately show ?thesis by linarith
qed

lemma parse_iso_of_time:
  assumes "\<bar>t\<bar> \<le> maxTime"
  shows "parse_iso (iso_of_time t) = Some t"
proof -
  define d ms y where "d = Day t" and "ms = TimeWithinDay t" and "y = YearFromDay d"
  define l dwy where "l = InLeapYear y" and "dwy = d - DayFromYear y"
  define m where "m = MonthFromDay l dwy"
  define dt where "dt = dwy - MonthStart l m + 1"
  define h mi sec msec where "h = ms div 3600000" and "mi = ms div 60000 mod 60"
    and "sec = ms div 1000 mod 60" and "msec = ms mod 1000"
  define r where "r = ''-'' @ pad 2 (m + 1) @ ''-'' @ pad 2 dt @ ''T'' @ pad 2 h @ '':'' @
    pad 2 mi @ '':'' @ pad 2 sec @ ''.'' @ pad 3 msec @ ''Z''"
  have iso: "iso_of_time t = year_string y @ r"
    by (simp add: iso_of_time_def Let_def d_def ms_def y_def l_def dwy_def m_def dt_def
        h_def mi_def sec_def msec_def r_def)
  have ms: "0 \<le> ms" "ms < 86400000"
    by (simp_all add: ms_def TimeWithinDay_def msPerDay_def)
  have t: "d * msPerDay + ms = t"
    by (simp add: d_def ms_def Day_def TimeWithinDay_def)
  have l: "l = 0 \<or> l = 1"
    unfolding l_def by (rule InLeapYear_cases)
  have dwy: "0 \<le> dwy" "dwy < 365 + l"
    using YearFromDay_bracket [of d] by (simp_all add: dwy_def y_def l_def InLeapYear_def)
  from month_of_day [OF l dwy]
  have m: "0 \<le> m" "m \<le> 11" and dt: "1 \<le> dt" "dt \<le> DaysInMonth l m"
    by (simp_all add: m_def dt_def)
  from dt DaysInMonth_le [OF l, of m] have dt31: "dt \<le> 31" by simp
  have y: "\<bar>y\<bar> < 1000000"
    unfolding y_def d_def using Day_bounds [OF assms] by (rule YearFromDay_bound)
  have time: "MakeTime h mi sec msec = ms" and h: "h \<le> 23"
    using MakeTime_parts [OF ms] by (simp_all add: h_def mi_def sec_def msec_def)
  have h0: "0 \<le> h" using ms by (simp add: h_def)
  have small: "0 \<le> mi" "mi < 60" "0 \<le> sec" "sec < 60" "0 \<le> msec" "msec < 1000"
    by (simp_all add: mi_def sec_def msec_def)
  have day: "MakeDay y m dt = d"
    by (simp add: MakeDay_def dt_def dwy_def l_def)
  have v_m: "digits_val (pad 2 (m + 1)) = Some (m + 1)"
    using m by (intro digits_val_pad) simp_all
  have v_dt: "digits_val (pad 2 dt) = Some dt"
    using dt dt31 by (intro digits_val_pad) simp_all
  have v_h: "digits_val (pad 2 h) = Some h"
    using h h0 by (intro digits_val_pad) simp_all
  have v_mi: "digits_val (pad 2 mi) = Some mi"
    using small by (intro digits_val_pad) simp_all
  have v_sec: "digits_val (pad 2 sec) = Some sec"
    using small by (intro digits_val_pad) simp_all
  have v_msec: "digits_val (pad 3 msec) = Some msec"
    using small by (intro digits_val_pad) simp_all
  note fields = rest_fields [of "pad 2 (m + 1)" "pad 2 dt" "pad 2 h" "pad 2 mi" "pad 2 sec"
      "pad 3 msec", folded r_def, unfolded length_pad, simplified]
  from split_year_string [OF y, of r] obtain sign ys yv
    where split: "split_year (year_string y @ r) = Some (sign, ys, r)"
      and yv: "digits_val ys = Some yv" and sign: "sign * yv = y"
      and nz: "\<not> (sign = - 1 \<and> yv = 0)"
    by blast
  have valid: "\<not> ((sign = - 1 \<and> yv = 0) \<or> m + 1 < 1 \<or> 12 < m + 1 \<or> dt < 1
        \<or> DaysInMonth (InLeapYear y) (m + 1 - 1) < dt \<or> 23 < h \<or> 59 < mi \<or> 59 < sec)"
    using nz m dt h small by (simp add: l_def)
  have "parse_iso (year_string y @ r)
      = Some (MakeDay (sign * yv) (m + 1 - 1) dt * msPerDay + MakeTime h mi sec msec)"
    unfolding parse_iso_def split
    using fields valid
    by (simp add: yv v_m v_dt v_h v_mi v_sec v_msec sign Let_def)
  also have "\<dots> = Some t"
    by (simp add: sign day time t)
  finally show ?thesis by (simp add: iso)
qed

subsection \<open>The availability projection\<close>

lemma availableShifts_Nil: "availableShifts [] f = []"
  by (simp add: availableShifts_def)

lemma availableShifts_Cons:
  "availableShifts (s # S) f =
     (if pediatricAvailable s \<and> (f = None \<or> f = Some Pediatric)
      then [\<lparr>slot_date = date s, slot_providerType = Pediatric\<rparr>] else []) @
     (if adultAvailable s \<and> (f = None \<or> f = Some Adult)
      then [\<lparr>slot_date = date s, slot_providerType = Adult\<rparr>] else []) @
     availableShifts S f"
  by (auto simp add: availableShifts_def)

lemma availableShifts_entry:
  "e \<in> set (availableShifts S f) \<Longrightarrow>
     (\<exists>s \<in> set S. date s = slot_date e \<and> available (slot_providerType e) s)
     \<and> (f = None \<or> f = Some (slot_providerType e))"
proof (induction S)
  case Nil
  then show ?case by (simp add: availableShifts_Nil)
next
  case (Cons s S)
  then show ?case
    by (auto simp add: availableShifts_Cons split: if_splits)
qed

lemma availableShifts_count:
  "count_list (availableShifts S None) \<lparr>slot_date = d, slot_providerType = p\<rparr> =
     length (filter (\<lambda>s. date s = d \<and> available p s) S)"
proof (induction S)
  case Nil
  show ?case by (simp add: availableShifts_Nil)
next
  case (Cons s S)
  then show ?case
    by (cases p) (auto simp add: availableShifts_Cons)
qed

text \<open>
  Claim C1. For every shift collection \<open>S\<close> and every optional provider-type filter \<open>f\<close>,
  each entry of \<open>availableShifts S f\<close> has the date of a shift of \<open>S\<close> whose flag for the
  entry's provider type is set (and passes the filter); and without a filter the entries
  equal to a given date and provider type are exactly as many as the shifts of \<open>S\<close> with
  that date and that flag set: each pair of a shift and an enabled flag gives one entry.
\<close>

theorem availableShifts_sound_complete:
  "(\<forall>e \<in> set (availableShifts S f).
      (\<exists>s \<in> set S. date s = slot_date e \<and> available (slot_providerType e) s)
      \<and> (f = None \<or> f = Some (slot_providerType e)))
   \<and> (\<forall>d p. count_list (availableShifts S None) \<lparr>slot_date = d, slot_providerType = p\<rparr> =
         length (filter (\<lambda>s. date s = d \<and> available p s) S))"
  using availableShifts_entry availableShifts_count by blast

theorem availableShifts_sound_complete_witness:
  "availableShifts [\<lparr>date = Time 1717200000000, pediatricAvailable = True, adultAvailable = False\<rparr>] None
     = [\<lparr>slot_date = Time 1717200000000, slot_providerType = Pediatric\<rparr>]
   \<and> availableShifts [\<lparr>date = Time 1717200000000, pediatricAvailable = True, adultAvailable = False\<rparr>]
        (Some Adult) = []
   \<and> count_list
        (availableShifts [\<lparr>date = Time 1717200000000, pediatricAvailable = True, adultAvailable = False\<rparr>] None)
        \<lparr>slot_date = Time 1717200000000, slot_providerType = Pediatric\<rparr> = 1"
  using availableShifts_sound_complete
    [of "[\<lparr>date = Time 1717200000000, pediatricAvailable = True, adultAvailable = False\<rparr>]" None]
  by (simp add: availableShifts_Cons availableShifts_Nil)

subsection \<open>The upsert of the admin editor\<close>

lemma strict_equal_iff: "strict_equal a b \<longleftrightarrow> (\<exists>t. a = Some t \<and> b = Some t)"
  by (auto simp add: strict_equal_def split: option.splits)

lemma same_time_iff:
  "strict_equal (getTime d) (getTime d') \<longleftrightarrow> (\<exists>t. d = Time t \<and> d' = Time t)"
  by (cases d; cases d') (auto simp add: strict_equal_iff)

lemma findIndex_None_iff: "findIndex P xs = None \<longleftrightarrow> (\<forall>x \<in> set xs. \<not> P x)"
  by (induction xs) auto

lemma findIndex_Some_iff:
  "findIndex P xs = Some i \<longleftrightarrow> i < length xs \<and> P (xs ! i) \<and> (\<forall>j < i. \<not> P (xs ! j))"
proof (induction xs arbitrary: i)
  case Nil
  show ?case by simp
next
  case (Cons x xs)
  show ?case
  proof (cases "P x")
    case True
    then show ?thesis by (cases i) auto
  next
    case False
    show ?thesis
    proof (cases i)
      case 0
      with False show ?thesis by auto
    next
      case (Suc k)
      have "(\<forall>j < Suc k. \<not> P ((x # xs) ! j)) \<longleftrightarrow> (\<forall>j < k. \<not> P (xs ! j))"
        using False by (auto simp add: less_Suc_eq_0_disj)
      with Suc False Cons.IH [of k] show ?thesis by auto
    qed
  qed
qed

lemma map_enumerate_update:
  "map (\<lambda>(index, y). if index = i then x else y) (enumerate n xs) =
     (if n \<le> i \<and> i < n + length xs then xs[i - n := x] else xs)"
proof (induction xs arbitrary: n)
  case Nil
  show ?case by simp
next
  case (Cons a xs)
  show ?case
  proof (cases "i = n")
    case True
    have "map (\<lambda>(index, y). if index = i then x else y) (enumerate (Suc n) xs) = xs"
      using Cons.IH [of "Suc n"] True by simp
    with True show ?thesis by simp
  next
    case False
    show ?thesis
    proof (cases "n < i")
      case True
      then obtain k where k: "i - n = Suc k" "i - Suc n = k"
        by (cases "i - n") auto
      with True show ?thesis
        using Cons.IH [of "Suc n"] by auto
    next
      case False
      with \<open>i \<noteq> n\<close> show ?thesis
        using Cons.IH [of "Suc n"] by auto
    qed
  qed
qed

lemma upsert_replace:
  assumes "findIndex (\<lambda>s. strict_equal (getTime (date s)) (getTime (date x))) S = Some i"
  shows "upsert S x = S[i := x]"
proof -
  from assms have "i < length S"
    by (simp add: findIndex_Some_iff)
  then show ?thesis
    by (simp add: upsert_def assms map_enumerate_update)
qed

lemma upsert_append:
  "findIndex (\<lambda>s. strict_equal (getTime (date s)) (getTime (date x))) S = None \<Longrightarrow>
     upsert S x = S @ [x]"
  by (simp add: upsert_def)

text \<open>
  Claim C4. For every shift collection \<open>S\<close> and every shift \<open>x\<close> the editor can save,
  saving \<open>x\<close> twice gives the collection that saving it once gives. The date of a shift
  that is saved is the day the calendar delivered (lines 82, 141 to 145 and 213 to 217),
  a valid date: that is the hypothesis.
\<close>

theorem upsert_idempotent:
  assumes "date x \<noteq> Invalid_Date"
  shows "upsert (upsert S x) x = upsert S x"
proof -
  let ?P = "\<lambda>s. strict_equal (getTime (date s)) (getTime (date x))"
  from assms have Px: "?P x"
    by (cases "date x") (simp_all add: strict_equal_def)
  show ?thesis
  proof (cases "findIndex ?P S")
    case None
    then have none: "\<forall>s \<in> set S. \<not> ?P s"
      by (simp add: findIndex_None_iff)
    have "findIndex ?P (S @ [x]) = Some (length S)"
      unfolding findIndex_Some_iff using none Px by (auto simp add: nth_append)
    then have "upsert (S @ [x]) x = (S @ [x])[length S := x]"
      by (rule upsert_replace)
    with None show ?thesis by (simp add: upsert_append)
  next
    case (Some i)
    then have i: "i < length S" "\<forall>j < i. \<not> ?P (S ! j)"
      by (simp_all add: findIndex_Some_iff)
    have "findIndex ?P (S[i := x]) = Some i"
      unfolding findIndex_Some_iff using i Px by auto
    then have "upsert (S[i := x]) x = S[i := x, i := x]"
      by (rule upsert_replace)
    with Some show ?thesis by (simp add: upsert_replace)
  qed
qed

theorem upsert_idempotent_witness:
  "upsert (upsert [\<lparr>date = Time 0, pediatricAvailable = True, adultAvailable = True\<rparr>]
             \<lparr>date = Time 1720051200000, pediatricAvailable = False, adultAvailable = True\<rparr>)
          \<lparr>date = Time 1720051200000, pediatricAvailable = False, adultAvailable = True\<rparr>
     = [\<lparr>date = Time 0, pediatricAvailable = True, adultAvailable = True\<rparr>,
        \<lparr>date = Time 1720051200000, pediatricAvailable = False, adultAvailable = True\<rparr>]"
  using upsert_idempotent
    [of "\<lparr>date = Time 1720051200000, pediatricAvailable = False, adultAvailable = True\<rparr>"
        "[\<lparr>date = Time 0, pediatricAvailable = True, adultAvailable = True\<rparr>]"]
  by (simp add: upsert_def strict_equal_def)

text \<open>
  Claim C6. For every shift collection \<open>S\<close> and new shift \<open>x\<close>: if a shift of \<open>S\<close> has
  the time value of \<open>x\<close>, the first such shift is replaced by \<open>x\<close> as a whole and nothing
  else changes; if none has, \<open>x\<close> is appended. Dates are compared by their exact time
  values, so two times of the same day are two shifts.
\<close>

theorem upsert_replaces_or_appends:
  "((\<exists>s \<in> set S. \<exists>t. date s = Time t \<and> date x = Time t) \<longrightarrow>
      (\<exists>i < length S. (\<exists>t. date (S ! i) = Time t \<and> date x = Time t)
         \<and> (\<forall>j < i. date (S ! j) \<noteq> date x) \<and> upsert S x = S[i := x]))
   \<and> ((\<forall>s \<in> set S. \<forall>t. date s = Time t \<longrightarrow> date x \<noteq> Time t) \<longrightarrow> upsert S x = S @ [x])
   \<and> (\<forall>y t t'. date y = Time t \<and> date x = Time t' \<and> t \<noteq> t' \<and> Day t = Day t'
         \<longrightarrow> upsert [y] x = [y, x])"
proof (intro conjI impI allI)
  let ?P = "\<lambda>s. strict_equal (getTime (date s)) (getTime (date x))"
  assume "\<exists>s \<in> set S. \<exists>t. date s = Time t \<and> date x = Time t"
  then obtain s t where s: "s \<in> set S" "date s = Time t" and x: "date x = Time t"
    by blast
  then have "?P s" by (simp add: strict_equal_def)
  with s(1) have "findIndex ?P S \<noteq> None"
    unfolding findIndex_None_iff by blast
  then obtain i where i: "findIndex ?P S = Some i" by blast
  then have len: "i < length S" and at: "?P (S ! i)" and before: "\<forall>j < i. \<not> ?P (S ! j)"
    by (simp_all add: findIndex_Some_iff)
  from at x have "date (S ! i) = Time t"
    unfolding same_time_iff by auto
  moreover from before x have "\<forall>j < i. date (S ! j) \<noteq> date x"
    unfolding same_time_iff by auto
  moreover have "upsert S x = S[i := x]"
    using i by (rule upsert_replace)
  ultimately show "\<exists>i < length S. (\<exists>t. date (S ! i) = Time t \<and> date x = Time t)
         \<and> (\<forall>j < i. date (S ! j) \<noteq> date x) \<and> upsert S x = S[i := x]"
    using x len by blast
next
  let ?P = "\<lambda>s. strict_equal (getTime (date s)) (getTime (date x))"
  assume "\<forall>s \<in> set S. \<forall>t. date s = Time t \<longrightarrow> date x \<noteq> Time t"
  then have "findIndex ?P S = None"
    by (auto simp add: findIndex_None_iff same_time_iff)
  then show "upsert S x = S @ [x]" by (rule upsert_append)
next
  fix y :: Shift and t t'
  assume "date y = Time t \<and> date x = Time t' \<and> t \<noteq> t' \<and> Day t = Day t'"
  then show "upsert [y] x = [y, x]"
    by (simp add: upsert_def strict_equal_def)
qed

theorem upsert_replaces_or_appends_witness:
  "upsert [\<lparr>date = Time 1717200000000, pediatricAvailable = True, adultAvailable = False\<rparr>]
          \<lparr>date = Time 1717200000000, pediatricAvailable = False, adultAvailable = True\<rparr>
     = [\<lparr>date = Time 1717200000000, pediatricAvailable = False, adultAvailable = True\<rparr>]
   \<and> upsert [\<lparr>date = Time 1717200000000, pediatricAvailable = True, adultAvailable = False\<rparr>]
            \<lparr>date = Time 1717203600000, pediatricAvailable = False, adultAvailable = True\<rparr>
     = [\<lparr>date = Time 1717200000000, pediatricAvailable = True, adultAvailable = False\<rparr>,
        \<lparr>date = Time 1717203600000, pediatricAvailable = False, adultAvailable = True\<rparr>]
   \<and> Day 1717200000000 = Day 1717203600000"
  using upsert_replaces_or_appends
    [of "[\<lparr>date = Time 1717200000000, pediatricAvailable = True, adultAvailable = False\<rparr>]"
        "\<lparr>date = Time 1717200000000, pediatricAvailable = False, adultAvailable = True\<rparr>"]
    upsert_replaces_or_appends
    [of "[\<lparr>date = Time 1717200000000, pediatricAvailable = True, adultAvailable = False\<rparr>]"
        "\<lparr>date = Time 1717203600000, pediatricAvailable = False, adultAvailable = True\<rparr>"]
  by (simp add: Day_def msPerDay_def)

subsection \<open>Submission and the clearing of booked slots\<close>

lemma iso_of_june_first: "iso_of_time 1717200000000 = ''2024-06-01T00:00:00.000Z''"
  by code_simp

lemma clear_flags_date: "date (clear_flags ds str s) = date s"
  by (simp add: clear_flags_def Let_def)



lemma clear_flags_unchanged:
  "str @ ''-pediatric'' \<notin> set ds \<Longrightarrow> str @ ''-adult'' \<notin> set ds \<Longrightarrow> clear_flags ds str s = s"
  by (simp add: clear_flags_def)

lemma fst_updatedShifts_Cons:
  "fst (updatedShifts ds (s # S)) =
     (case toISOString (date s) of
        None \<Rightarrow> s # S
      | Some str \<Rightarrow> clear_flags ds str s # fst (updatedShifts ds S))"
  by (simp add: case_prod_beta split: option.splits)


declare updatedShifts.simps(2) [simp del]

lemma updatedShifts_length: "length (fst (updatedShifts ds S)) = length S"
  by (induction S) (simp_all add: fst_updatedShifts_Cons split: option.splits)

lemma updatedShifts_dates: "map date (fst (updatedShifts ds S)) = map date S"
  by (induction S) (simp_all add: fst_updatedShifts_Cons clear_flags_date split: option.splits)

lemma updatedShifts_nth:
  "i < length S \<Longrightarrow>
     fst (updatedShifts ds S) ! i = S ! i
     \<or> (\<exists>str. toISOString (date (S ! i)) = Some str
           \<and> fst (updatedShifts ds S) ! i = clear_flags ds str (S ! i))"
proof (induction S arbitrary: i)
  case Nil
  then show ?case by simp
next
  case (Cons s S)
  show ?case
  proof (cases "toISOString (date s)")
    case None
    then show ?thesis by (simp add: fst_updatedShifts_Cons)
  next
    case (Some str)
    show ?thesis
    proof (cases i)
      case 0
      with Some show ?thesis by (simp add: fst_updatedShifts_Cons)
    next
      case (Suc k)
      with Cons.prems have "k < length S" by simp
      from Cons.IH [OF this] Some Suc show ?thesis
        by (simp add: fst_updatedShifts_Cons)
    qed
  qed
qed


lemma shifts_onSubmit_Accepted:
  "shifts (onSubmit v Accepted st) = fst (updatedShifts (shiftDates v) (shifts st))"
  by (simp add: onSubmit_def Let_def case_prod_beta split: option.splits)

lemma shifts_onSubmit_Rejected: "shifts (onSubmit v Rejected st) = shifts st"
  by (simp add: onSubmit_def Let_def)







text \<open>
  Claim C3. For every submission whose POST fails, the pending flag is cleared, the
  success flag is unset, and the shift collection and the stored text are what they were;
  the error is logged.
\<close>

theorem onSubmit_failure_unchanged:
  "isSubmitting (onSubmit v Rejected st) = False
   \<and> submitSuccess (onSubmit v Rejected st) = False
   \<and> shifts (onSubmit v Rejected st) = shifts st
   \<and> localStorage (onSubmit v Rejected st) = localStorage st
   \<and> console (onSubmit v Rejected st) = console st @ [Submission_error AxiosError]"
  by (simp add: onSubmit_def Let_def)

theorem onSubmit_failure_unchanged_witness:
  "isSubmitting (onSubmit signup Rejected ((initial_state None)\<lparr>shifts := [june_first]\<rparr>)) = False
   \<and> submitSuccess (onSubmit signup Rejected ((initial_state None)\<lparr>shifts := [june_first]\<rparr>)) = False
   \<and> shifts (onSubmit signup Rejected ((initial_state None)\<lparr>shifts := [june_first]\<rparr>)) = [june_first]
   \<and> localStorage (onSubmit signup Rejected ((initial_state None)\<lparr>shifts := [june_first]\<rparr>)) = None"
  using onSubmit_failure_unchanged [of signup "(initial_state None)\<lparr>shifts := [june_first]\<rparr>"]
  by (simp add: initial_state_def)

text \<open>
  Claim C10. For every shift collection and every submitted \<open>shiftDates\<close>, the clearing
  after an accepted submission changes availability flags only: the collection keeps its
  length, its order and every date; a shift whose ISO date string occurs with neither
  suffix among \<open>shiftDates\<close> is unchanged; and when no identifier matches a stored shift
  the collection is the same.
\<close>

theorem clearing_frame:
  "length (shifts (onSubmit v Accepted st)) = length (shifts st)
   \<and> map date (shifts (onSubmit v Accepted st)) = map date (shifts st)
   \<and> (\<forall>i < length (shifts st).
        (\<forall>str. toISOString (date (shifts st ! i)) = Some str \<longrightarrow>
            str @ ''-pediatric'' \<notin> set (shiftDates v) \<and> str @ ''-adult'' \<notin> set (shiftDates v))
        \<longrightarrow> shifts (onSubmit v Accepted st) ! i = shifts st ! i)
   \<and> ((\<forall>s \<in> set (shifts st). \<forall>str. toISOString (date s) = Some str \<longrightarrow>
            str @ ''-pediatric'' \<notin> set (shiftDates v) \<and> str @ ''-adult'' \<notin> set (shiftDates v))
        \<longrightarrow> shifts (onSubmit v Accepted st) = shifts st)"
proof -
  let ?S = "shifts st" and ?S' = "shifts (onSubmit v Accepted st)" and ?ds = "shiftDates v"
  have len: "length ?S' = length ?S"
    by (simp add: shifts_onSubmit_Accepted updatedShifts_length)
  have dates: "map date ?S' = map date ?S"
    by (simp add: shifts_onSubmit_Accepted updatedShifts_dates)
  have nth: "?S' ! i = ?S ! i"
    if "i < length ?S"
      and "\<forall>str. toISOString (date (?S ! i)) = Some str \<longrightarrow>
            str @ ''-pediatric'' \<notin> set ?ds \<and> str @ ''-adult'' \<notin> set ?ds" for i
    using updatedShifts_nth [OF that(1), of ?ds] that(2)
    by (auto simp add: shifts_onSubmit_Accepted clear_flags_unchanged)
  have all: "?S' = ?S"
    if "\<forall>s \<in> set ?S. \<forall>str. toISOString (date s) = Some str \<longrightarrow>
            str @ ''-pediatric'' \<notin> set ?ds \<and> str @ ''-adult'' \<notin> set ?ds"
  proof (rule nth_equalityI)
    show "length ?S' = length ?S" by (rule len)
  next
    fix i assume "i < length ?S'"
    with len have i: "i < length ?S" by simp
    then have "?S ! i \<in> set ?S" by simp
    with that have "\<forall>str. toISOString (date (?S ! i)) = Some str \<longrightarrow>
            str @ ''-pediatric'' \<notin> set ?ds \<and> str @ ''-adult'' \<notin> set ?ds"
      by blast
    with i show "?S' ! i = ?S ! i" by (rule nth)
  qed
  from len dates nth all show ?thesis by blast
qed

theorem clearing_frame_witness:
  "shifts (onSubmit (signup\<lparr>shiftDates := [''2024-07-04T00:00:00.000Z-adult'']\<rparr>) Accepted
            ((initial_state None)\<lparr>shifts := [june_first, undated]\<rparr>))
     = [june_first, undated]"
  using clearing_frame [of "signup\<lparr>shiftDates := [''2024-07-04T00:00:00.000Z-adult'']\<rparr>"
      "(initial_state None)\<lparr>shifts := [june_first, undated]\<rparr>"]
  by (simp add: initial_state_def june_first_def undated_def signup_def iso_of_june_first)

subsection \<open>At most one shift per date\<close>

lemma strict_equal_sym: "strict_equal a b = strict_equal b a"
  by (auto simp add: strict_equal_iff)

lemma one_shift_per_date_dates:
  "map date S = map date S' \<Longrightarrow> one_shift_per_date S = one_shift_per_date S'"
proof (induction S arbitrary: S')
  case Nil
  then show ?case by simp
next
  case (Cons s S)
  then obtain s' R where S': "S' = s' # R" and s: "date s = date s'" and R: "map date S = map date R"
    by (cases S') auto
  have "list_ex (\<lambda>other. strict_equal (getTime (date s)) (getTime (date other))) S
      = list_ex (\<lambda>d. strict_equal (getTime (date s)) (getTime d)) (map date S)"
    by (simp add: list_ex_iff)
  also have "\<dots> = list_ex (\<lambda>d. strict_equal (getTime (date s')) (getTime d)) (map date R)"
    by (simp add: s R)
  also have "\<dots> = list_ex (\<lambda>other. strict_equal (getTime (date s')) (getTime (date other))) R"
    by (simp add: list_ex_iff)
  finally show ?case
    using Cons.IH [OF R] by (simp add: S')
qed

lemma one_shift_per_date_append:
  "one_shift_per_date (S @ [x]) \<longleftrightarrow>
     one_shift_per_date S \<and> (\<forall>s \<in> set S. \<not> strict_equal (getTime (date s)) (getTime (date x)))"
  by (induction S) (auto simp add: list_ex_iff)

lemma one_shift_per_date_upsert:
  assumes "one_shift_per_date S"
  shows "one_shift_per_date (upsert S x)"
proof (cases "findIndex (\<lambda>s. strict_equal (getTime (date s)) (getTime (date x))) S")
  case None
  then show ?thesis
    using assms by (simp add: upsert_append one_shift_per_date_append findIndex_None_iff)
next
  case (Some i)
  then have i: "i < length S" and same: "strict_equal (getTime (date (S ! i))) (getTime (date x))"
    by (simp_all add: findIndex_Some_iff)
  from same have "date x = date (S ! i)"
    unfolding same_time_iff by auto
  with i have "map date (S[i := x]) = map date S"
    by (simp add: map_update list_update_same_conv)
  from one_shift_per_date_dates [OF this] assms Some show ?thesis
    by (simp add: upsert_replace)
qed

lemma one_shift_per_date_updatedShifts:
  "one_shift_per_date (fst (updatedShifts ds S)) = one_shift_per_date S"
  by (rule one_shift_per_date_dates) (rule updatedShifts_dates)

lemma one_shift_per_date_distinct:
  "\<forall>s \<in> set S. date s \<noteq> Invalid_Date \<Longrightarrow> one_shift_per_date S = distinct (map date S)"
proof (induction S)
  case Nil
  show ?case by simp
next
  case (Cons s S)
  then obtain t where t: "date s = Time t" by (cases "date s") auto
  have "list_ex (\<lambda>other. strict_equal (getTime (date s)) (getTime (date other))) S
      \<longleftrightarrow> date s \<in> set (map date S)"
    unfolding list_ex_iff same_time_iff using t by (auto simp add: image_iff) force
  with Cons show ?case by simp
qed

text \<open>
  Claim C7. The invariant that no two stored shifts have equal dates (dates compared by
  their time values, as the code compares them) holds of the empty initial collection and
  is preserved by the admin editor's save and by a submission, whatever its outcome.
\<close>

theorem one_shift_per_date_invariant:
  "one_shift_per_date (shifts (initial_state stored))
   \<and> (one_shift_per_date (shifts st) \<longrightarrow> one_shift_per_date (shifts (addOrUpdateShift x st)))
   \<and> (one_shift_per_date (shifts st) \<longrightarrow> one_shift_per_date (shifts (onSubmit v outcome st)))"
proof (intro conjI impI)
  show "one_shift_per_date (shifts (initial_state stored))"
    by (simp add: initial_state_def)
next
  assume "one_shift_per_date (shifts st)"
  then show "one_shift_per_date (shifts (addOrUpdateShift x st))"
    by (simp add: addOrUpdateShift_def Let_def one_shift_per_date_upsert)
next
  assume "one_shift_per_date (shifts st)"
  then show "one_shift_per_date (shifts (onSubmit v outcome st))"
    by (cases outcome)
      (simp_all add: shifts_onSubmit_Accepted shifts_onSubmit_Rejected
        one_shift_per_date_updatedShifts)
qed

theorem one_shift_per_date_invariant_witness:
  "one_shift_per_date (shifts (initial_state None))
   \<and> one_shift_per_date (shifts (addOrUpdateShift june_first ((initial_state None)\<lparr>shifts := [june_first]\<rparr>)))
   \<and> one_shift_per_date (shifts (onSubmit signup Accepted ((initial_state None)\<lparr>shifts := [june_first]\<rparr>)))
   \<and> \<not> one_shift_per_date [june_first, june_first]"
  using one_shift_per_date_invariant
    [of None "(initial_state None)\<lparr>shifts := [june_first]\<rparr>" june_first signup Accepted]
  by (simp add: initial_state_def june_first_def strict_equal_def)

subsection \<open>Validation\<close>

lemma formSchema_empty_iff:
  "formSchema is_email v = [] \<longleftrightarrow>
     2 \<le> length (name v) \<and> is_email (email v) \<and> shiftDates v \<noteq> [] \<and> providerType v \<noteq> None"
  by (cases "providerType v") (auto simp add: formSchema_def)

text \<open>
  Claim C8. Validation rejects a name of fewer than two characters, an email that is not
  an email address, an empty \<open>shiftDates\<close> and a missing \<open>providerType\<close>, each with an
  error on its field; and on a form with any of these \<open>handleSubmit\<close> records the errors
  and does nothing else: no POST is sent, the pending flag, the collection and the
  storage are untouched.
\<close>

theorem validation_blocks_submission:
  "(length (name v) < 2 \<longrightarrow>
      (''name'', ''Name must be at least 2 characters.'') \<in> set (formSchema is_email v))
   \<and> (\<not> is_email (email v) \<longrightarrow>
      (''email'', ''Please enter a valid email address.'') \<in> set (formSchema is_email v))
   \<and> (shiftDates v = [] \<longrightarrow>
      (''shiftDates'', ''Please select at least one shift date.'') \<in> set (formSchema is_email v))
   \<and> (providerType v = None \<longrightarrow>
      (''providerType'', ''Please select a provider type.'') \<in> set (formSchema is_email v))
   \<and> (length (name (form st)) < 2 \<or> \<not> is_email (email (form st))
        \<or> shiftDates (form st) = [] \<or> providerType (form st) = None \<longrightarrow>
      handleSubmit is_email outcome st = st\<lparr>form_errors := formSchema is_email (form st)\<rparr>
      \<and> formSchema is_email (form st) \<noteq> []
      \<and> posted (handleSubmit is_email outcome st) = posted st
      \<and> isSubmitting (handleSubmit is_email outcome st) = isSubmitting st
      \<and> shifts (handleSubmit is_email outcome st) = shifts st
      \<and> localStorage (handleSubmit is_email outcome st) = localStorage st)"
proof (intro conjI impI)
  assume invalid: "length (name (form st)) < 2 \<or> \<not> is_email (email (form st))
        \<or> shiftDates (form st) = [] \<or> providerType (form st) = None"
  then show ne: "formSchema is_email (form st) \<noteq> []"
    by (auto simp add: formSchema_empty_iff)
  then show eq: "handleSubmit is_email outcome st = st\<lparr>form_errors := formSchema is_email (form st)\<rparr>"
    by (simp add: handleSubmit_def Let_def)
  show "posted (handleSubmit is_email outcome st) = posted st"
    and "isSubmitting (handleSubmit is_email outcome st) = isSubmitting st"
    and "shifts (handleSubmit is_email outcome st) = shifts st"
    and "localStorage (handleSubmit is_email outcome st) = localStorage st"
    by (simp_all add: eq)
qed (simp_all add: formSchema_def)

theorem validation_blocks_submission_witness:
  "(''name'', ''Name must be at least 2 characters.'')
      \<in> set (formSchema (\<lambda>s. CHR ''@'' \<in> set s) (signup\<lparr>name := ''A''\<rparr>))
   \<and> (''email'', ''Please enter a valid email address.'')
      \<in> set (formSchema (\<lambda>s. CHR ''@'' \<in> set s) (signup\<lparr>email := ''not-an-email''\<rparr>))
   \<and> (''shiftDates'', ''Please select at least one shift date.'')
      \<in> set (formSchema (\<lambda>s. CHR ''@'' \<in> set s) (signup\<lparr>shiftDates := []\<rparr>))
   \<and> (''providerType'', ''Please select a provider type.'')
      \<in> set (formSchema (\<lambda>s. CHR ''@'' \<in> set s) (signup\<lparr>providerType := None\<rparr>))
   \<and> posted (handleSubmit (\<lambda>s. CHR ''@'' \<in> set s) Accepted
        ((initial_state None)\<lparr>form := signup\<lparr>name := ''A''\<rparr>\<rparr>)) = []
   \<and> formSchema (\<lambda>s. CHR ''@'' \<in> set s) signup = []"
  using validation_blocks_submission
      [of "signup\<lparr>name := ''A''\<rparr>" "\<lambda>s. CHR ''@'' \<in> set s"
          "(initial_state None)\<lparr>form := signup\<lparr>name := ''A''\<rparr>\<rparr>" Accepted]
    validation_blocks_submission
      [of "signup\<lparr>email := ''not-an-email''\<rparr>" "\<lambda>s. CHR ''@'' \<in> set s"]
    validation_blocks_submission
      [of "signup\<lparr>shiftDates := []\<rparr>" "\<lambda>s. CHR ''@'' \<in> set s"]
    validation_blocks_submission
      [of "signup\<lparr>providerType := None\<rparr>" "\<lambda>s. CHR ''@'' \<in> set s"]
  by (simp add: signup_def initial_state_def formSchema_def)

lemma valid_form_is_submitted:
  "formSchema is_email (form st) = [] \<Longrightarrow>
     posted (handleSubmit is_email outcome st) =
       posted st @ [\<lparr>posted_values = form st, cc = ''chasecomprosky@ufl.edu''\<rparr>]"
  by (cases outcome)
    (simp_all add: handleSubmit_def onSubmit_def Let_def case_prod_beta split: option.splits)

subsection \<open>Loading the stored text\<close>

lemma new_Date_raises_iff:
  "new_Date impl v = Inl e \<longleftrightarrow> e = TypeError \<and> (\<exists>j. v = Some j \<and> toString_raises j)"
proof (cases v)
  case None
  then show ?thesis by simp
next
  case (Some j)
  then show ?thesis by (cases j) auto
qed

lemma revive_raises_iff:
  "revive impl x = Inl e \<longleftrightarrow>
     e = TypeError \<and> (x = JNull \<or> (\<exists>j. property x ''date'' = Some j \<and> toString_raises j))"
proof (cases "x = JNull")
  case True
  then show ?thesis by (auto simp add: revive_def)
next
  case False
  then show ?thesis
    using new_Date_raises_iff [of impl "property x ''date''" e]
    by (auto simp add: revive_def split: sum.splits)
qed

lemma map_raising_revive:
  "map_raising (revive impl) xs = Inl e \<longleftrightarrow>
     e = TypeError
     \<and> (\<exists>x \<in> set xs. x = JNull \<or> (\<exists>j. property x ''date'' = Some j \<and> toString_raises j))"
proof (induction xs)
  case Nil
  show ?case by simp
next
  case (Cons x xs)
  show ?case
  proof (cases "revive impl x")
    case (Inl e')
    then show ?thesis
      using revive_raises_iff [of impl x e'] by auto
  next
    case (Inr y)
    then have "\<not> (x = JNull \<or> (\<exists>j. property x ''date'' = Some j \<and> toString_raises j))"
      using revive_raises_iff [of impl x TypeError] by auto
    with Inr Cons.IH show ?thesis
      by (auto split: sum.splits)
  qed
qed

text \<open>
  The stored texts on which the \<^verbatim>\<open>try\<close> of lines 100 to 105 raises: a text that is not
  JSON, a value that is not an array, an array holding \<^verbatim>\<open>null\<close>, and an array holding
  a record whose \<^verbatim>\<open>date\<close> cannot be converted to a string. Every other JSON array is
  loaded, whatever its elements are.
\<close>

lemma parsedShifts_raises_iff:
  "(\<exists>e. parsedShifts impl item = Inl e) \<longleftrightarrow>
     item = Empty_text \<or> item = Not_JSON
     \<or> (\<exists>j. item = JSON_text j \<and> (\<forall>xs. j \<noteq> JArr xs))
     \<or> (\<exists>xs. item = JSON_text (JArr xs)
           \<and> (\<exists>x \<in> set xs. x = JNull \<or> (\<exists>j. property x ''date'' = Some j \<and> toString_raises j)))"
proof (cases item)
  case Empty_text
  then show ?thesis by simp
next
  case Not_JSON
  then show ?thesis by simp
next
  case (JSON_text j)
  then show ?thesis
    by (cases j) (auto simp add: map_raising_revive)
qed

text \<open>
  When the \<^verbatim>\<open>try\<close> raises, the \<^verbatim>\<open>catch\<close> logs the error and the collection is left as
  it was, empty at the start. The empty string never reaches the \<^verbatim>\<open>try\<close>: the guard of
  line 99 skips it, and nothing is logged.
\<close>

lemma load_raising_is_logged:
  assumes "item \<noteq> Empty_text" and "parsedShifts impl item = Inl e"
  shows "(localStorage st = Some item \<longrightarrow>
            mount impl adminParam st =
              st\<lparr>isClient := True, console := console st @ [Error_parsing_stored_shifts e],
                 isAdmin := (adminParam = Some ''true'')\<rparr>)
    \<and> shifts (mount impl adminParam (initial_state (Some item))) = []
    \<and> console (mount impl adminParam (initial_state (Some item))) = [Error_parsing_stored_shifts e]"
  using assms by (simp add: mount_def load_def initial_state_def)

lemma load_skips_empty_text:
  "shifts (mount impl adminParam (initial_state (Some Empty_text))) = []
   \<and> console (mount impl adminParam (initial_state (Some Empty_text))) = []"
  by (simp add: mount_def load_def initial_state_def)

lemma load_logs_unconvertible_date:
  "console (mount impl adminParam (initial_state (Some (JSON_text
       (JArr [JObj [(''date'', JObj [(''toString'', JNum 1)])]])))))
     = [Error_parsing_stored_shifts TypeError]"
  by (simp add: mount_def load_def initial_state_def revive_def)

text \<open>
  Claim C9: for every persisted value that cannot be deserialised into a shift collection,
  loading does not crash, logs the error and leaves the collection empty. The code does
  otherwise at the stored text \<^verbatim>\<open>[{"pediatricAvailable":true}]\<close>, which is an array but
  holds no shift: nothing raises and nothing is logged, the record is loaded as a shift
  with an invalid date and the pediatric flag set, and the render that follows throws
  RangeError at the key of that slot.
\<close>

theorem load_accepts_malformed_record:
  "shifts (mount impl adminParam (initial_state (Some dateless_store)))
     = [\<lparr>date = Invalid_Date, pediatricAvailable = True, adultAvailable = False\<rparr>]
   \<and> console (mount impl adminParam (initial_state (Some dateless_store))) = []
   \<and> render_slots (mount impl adminParam (initial_state (Some dateless_store))) = Inl RangeError"
  by (simp add: mount_def load_def initial_state_def dateless_store_def revive_def
      render_slots_def availableShifts_def defaultValues_def slot_key_def)

subsection \<open>Saving and loading again\<close>

lemma revive_Shift_toJSON:
  assumes "date s = Time t" and "\<bar>t\<bar> \<le> maxTime"
  shows "revive impl (Shift_toJSON s) = Inr s"
proof -
  have "new_Date impl (Some (JStr (iso_of_time t))) = Inr (Time t)"
    using assms(2) by (simp add: parse_iso_of_time TimeClip_def)
  with assms(1) show ?thesis
    by (cases s) (simp add: revive_def Shift_toJSON_def)
qed

lemma map_raising_Shift_toJSON:
  "\<forall>s \<in> set S. \<exists>t. date s = Time t \<and> \<bar>t\<bar> \<le> maxTime \<Longrightarrow>
     map_raising (revive impl) (map Shift_toJSON S) = Inr S"
proof (induction S)
  case Nil
  show ?case by simp
next
  case (Cons s S)
  then obtain t where "date s = Time t" "\<bar>t\<bar> \<le> maxTime" by auto
  then have "revive impl (Shift_toJSON s) = Inr s" by (rule revive_Shift_toJSON)
  with Cons show ?case by simp
qed

lemma save_writes_collection:
  "localStorage (addOrUpdateShift x st) = Some (JSON_stringify (shifts (addOrUpdateShift x st)))"
  by (simp add: addOrUpdateShift_def Let_def)

text \<open>
  Claim C5. For every shift collection \<open>S\<close> whose dates are valid (a time value within
  the range of a \<^verbatim>\<open>Date\<close>), loading what saving \<open>S\<close> wrote gives \<open>S\<close> again, without
  an error: each date is written as its ISO string and \<^verbatim>\<open>new Date\<close> of that string is
  the date.
\<close>

theorem load_save_roundtrip:
  assumes "\<forall>s \<in> set S. \<exists>t. date s = Time t \<and> \<bar>t\<bar> \<le> maxTime"
  shows "parsedShifts impl (JSON_stringify S) = Inr S
    \<and> shifts (mount impl adminParam (initial_state (Some (JSON_stringify S)))) = S
    \<and> console (mount impl adminParam (initial_state (Some (JSON_stringify S)))) = []
    \<and> (\<forall>s \<in> set S. \<exists>str. toISOString (date s) = Some str
          \<and> property (Shift_toJSON s) ''date'' = Some (JStr str)
          \<and> new_Date impl (Some (JStr str)) = Inr (date s))"
proof -
  have parsed: "parsedShifts impl (JSON_stringify S) = Inr S"
    using map_raising_Shift_toJSON [OF assms] by (simp add: JSON_stringify_def)
  then have "shifts (mount impl adminParam (initial_state (Some (JSON_stringify S)))) = S"
    and "console (mount impl adminParam (initial_state (Some (JSON_stringify S)))) = []"
    by (simp_all add: mount_def load_def initial_state_def JSON_stringify_def)
  moreover have "\<exists>str. toISOString (date s) = Some str
          \<and> property (Shift_toJSON s) ''date'' = Some (JStr str)
          \<and> new_Date impl (Some (JStr str)) = Inr (date s)" if "s \<in> set S" for s
  proof -
    from assms that obtain t where "date s = Time t" "\<bar>t\<bar> \<le> maxTime" by auto
    then show ?thesis
      by (simp add: Shift_toJSON_def parse_iso_of_time TimeClip_def)
  qed
  ultimately show ?thesis using parsed by blast
qed

theorem load_save_roundtrip_witness:
  "shifts (mount (\<lambda>j. Invalid_Date) None (initial_state (Some (JSON_stringify [june_first]))))
     = [june_first]
   \<and> JSON_stringify [june_first]
     = JSON_text (JArr [JObj [(''date'', JStr ''2024-06-01T00:00:00.000Z''),
                              (''pediatricAvailable'', JBool True),
                              (''adultAvailable'', JBool False)]])"
  using load_save_roundtrip [of "[june_first]" "\<lambda>j. Invalid_Date" None]
  by (simp add: june_first_def maxTime_def JSON_stringify_def Shift_toJSON_def iso_of_june_first)

text \<open>
  The validity of the dates is needed: an invalid date is written as \<^verbatim>\<open>null\<close>, and
  \<^verbatim>\<open>new Date(null)\<close> is the epoch.
\<close>

lemma invalid_date_is_not_restored:
  "shifts (mount impl adminParam (initial_state (Some (JSON_stringify [undated]))))
     = [undated\<lparr>date := Time 0\<rparr>]"
  by (simp add: mount_def load_def initial_state_def JSON_stringify_def Shift_toJSON_def
      undated_def revive_def)

end
